theory Spec2Isabelle
  imports Main "HOL-Library.Word" "HOL-Library.Sublist"
begin

unbundle bit_operations_syntax

section \<open>The PCRE benchmark driver \<open>bench/pcre.c\<close>\<close>

text \<open>
  The program parses its command line, compiles a pattern, loads a file and runs up to
  three PCRE matchers on it, printing one timed result line per matcher.  Everything it
  does is a sequence of calls into libc and libpcre and of writes to the two output
  streams, so the model is a function from the answers of those calls (a \<open>world\<close>) and
  the argument vector to the trace of events and the way the process ends.

  C types, as on an LP64 platform: \<open>int\<close> and \<open>unsigned\<close> are 32-bit words, \<open>long\<close>,
  \<open>clock_t\<close> and \<open>size_t\<close> are 64-bit words.  Signed comparisons are \<open><s\<close>, unsigned
  ones are \<open><\<close>.
\<close>

type_synonym c_int = "32 word"
type_synonym c_uint = "32 word"
type_synonym c_long = "64 word"
type_synonym c_size = "64 word"

subsection \<open>Constants of the headers\<close>

text \<open>The \<open>enum\<close> of lines 22-26.\<close>

definition ENGINE_DEFAULT :: c_uint where "ENGINE_DEFAULT = push_bit 0 1"
definition ENGINE_JIT :: c_uint where "ENGINE_JIT = push_bit 1 1"
definition ENGINE_DFA :: c_uint where "ENGINE_DFA = push_bit 2 1"

text \<open>
  Macros of \<open>pcre.h\<close>, which belongs to the PCRE library and not to this program:
  \<open>PCRE_CASELESS\<close> is \<open>0x00000001\<close>, \<open>PCRE_STUDY_JIT_COMPILE\<close> is \<open>0x0001\<close> and
  \<open>PCRE_ERROR_NOMATCH\<close> is \<open>(-1)\<close>.
\<close>

definition PCRE_CASELESS :: c_int where "PCRE_CASELESS = 1"
definition PCRE_STUDY_JIT_COMPILE :: c_int where "PCRE_STUDY_JIT_COMPILE = 1"
definition PCRE_ERROR_NOMATCH :: c_int where "PCRE_ERROR_NOMATCH = - 1"

subsection \<open>Events, outcomes and the world\<close>

datatype engine = Default | JIT | DFA

text \<open>
  The library calls the program makes, with the arguments that matter here:
  the pattern and options of \<open>pcre_compile\<close>, the path of \<open>fopen\<close>, the byte count of
  \<open>malloc\<close> and \<open>fread\<close>, the options of \<open>pcre_study\<close>, the subject length and
  \<open>ovecsize\<close> of \<open>pcre_exec\<close>, and for \<open>pcre_dfa_exec\<close> also the workspace count.
  The match calls take the length and the sizes as \<open>int\<close>: the \<open>size_t\<close> values the
  program passes are converted.
\<close>

datatype call =
    Pcre_compile string c_int
  | Pcre_fullinfo
  | Fopen string
  | Fseek_end
  | Ftell
  | Fseek_set
  | Malloc c_size
  | Fread c_size
  | Feof
  | Fclose
  | Pcre_study c_int
  | Clock
  | Pcre_exec c_int c_int
  | Pcre_dfa_exec c_int c_int c_int

text \<open>
  \<open>Stdout s\<close> is one \<open>printf\<close>, \<open>Stderr s\<close> one \<open>fprintf(stderr, ...)\<close> with the text
  written, \<open>Perror s\<close> is \<open>perror(s)\<close>, which writes \<open>s\<close>, a colon, the text of \<open>errno\<close>
  and a newline to standard error, and \<open>Assert_fail e\<close> is the diagnostic of a failed
  \<open>assert(e)\<close>, written to standard error before the process aborts.
\<close>

datatype event =
    Stdout string
  | Stderr string
  | Perror string
  | Assert_fail string
  | Call call

text \<open>
  How the process ends: \<open>exit(n)\<close> or \<open>return n\<close> from \<open>main\<close>, \<open>abort()\<close> after a
  failed assertion, or undefined behaviour (a read outside the capture buffer).
\<close>

datatype status = Exit int | Abort | Undefined

type_synonym run = "event list \<times> status"

text \<open>A \<open>void\<close> function either ends the process or returns to its caller (\<open>None\<close>).\<close>

type_synonym part = "event list \<times> status option"

datatype compiled = Compile_failed c_int string | Compiled

text \<open>
  The answers of the environment.  \<open>pcre_compile\<close> either fails with an error offset and
  a message or gives a handle; \<open>pcre_fullinfo\<close> gives its return value and the capture
  count it stores.  The calls of one engine block are answered per block: whether
  \<open>malloc\<close> gave a buffer, the error string \<open>pcre_study\<close> left (\<open>None\<close> for \<open>NULL\<close>), the
  two readings of \<open>clock\<close>, the return value of the match call and the integers it left
  in the capture buffer.  \<open>clock_unit\<close> is the text \<open>printf\<close> produces for
  \<open>1.0 / CLOCKS_PER_SEC\<close> under \<open>%lf\<close>.
\<close>

record world =
  pcre_compile :: "string \<Rightarrow> c_int \<Rightarrow> compiled"
  pcre_fullinfo :: "c_int \<times> c_int"
  fopen :: "string \<Rightarrow> bool"
  fseek_end :: c_int
  ftell :: c_long
  fseek_set :: c_int
  malloc_input :: bool
  fread :: c_size
  feof :: bool
  fclose :: c_int
  malloc_ovector :: "engine \<Rightarrow> bool"
  pcre_study :: "engine \<Rightarrow> string option"
  clock_begin :: "engine \<Rightarrow> c_long"
  clock_end :: "engine \<Rightarrow> c_long"
  match_rc :: "engine \<Rightarrow> c_int"
  ovector :: "engine \<Rightarrow> nat \<Rightarrow> c_int"
  clock_unit :: string

definition emit :: "event list \<Rightarrow> event list \<times> 'a \<Rightarrow> event list \<times> 'a" where
  "emit es r = (es @ fst r, snd r)"

text \<open>Sequential composition of two parts of a \<open>void\<close> function.\<close>

definition andthen :: "part \<Rightarrow> part \<Rightarrow> part" where
  "andthen p q = (case snd p of Some s \<Rightarrow> p | None \<Rightarrow> emit (fst p) q)"

text \<open>
  A call of a \<open>void\<close> function followed by \<open>return n\<close> in \<open>main\<close>: the process ends
  inside the function, or with status \<open>n\<close> after it.
\<close>

definition returning :: "part \<Rightarrow> status \<Rightarrow> run" where
  "returning p st = (fst p, case snd p of Some s \<Rightarrow> s | None \<Rightarrow> st)"

subsection \<open>Formatting\<close>

text \<open>The conversions \<open>%d\<close> and \<open>%ld\<close> of \<open>printf\<close>: a signed decimal numeral.\<close>

definition digit :: "nat \<Rightarrow> char" where
  "digit d = char_of (48 + d)"

function dec_nat :: "nat \<Rightarrow> string" where
  "dec_nat n = (if n < 10 then [digit n] else dec_nat (n div 10) @ [digit (n mod 10)])"
  by pat_completeness auto
termination
  by (relation "measure id") auto

declare dec_nat.simps [simp del]

definition dec_int :: "int \<Rightarrow> string" where
  "dec_int i = (if i < 0 then CHR ''-'' # dec_nat (nat (- i)) else dec_nat (nat i))"

definition fmt_d :: "'a::len word \<Rightarrow> string" where
  "fmt_d x = dec_int (sint x)"

subsection \<open>\<open>usage\<close>, lines 323-333\<close>

definition usage_text :: string where
  "usage_text =
     ''usage: sregex [options] <regexp> <file>'' @ [CHR 0x0A] @
     ''options:'' @ [CHR 0x0A] @
     ''   -i                  use case insensitive matching'' @ [CHR 0x0A] @
     ''   --default           use the default PCRE engine'' @ [CHR 0x0A] @
     ''   --dfa               use the PCRE DFA engine'' @ [CHR 0x0A] @
     ''   --jit               use the PCRE JIT engine'' @ [CHR 0x0A]"

definition usage :: "int \<Rightarrow> run" where
  "usage rc = ([Stderr usage_text], Exit rc)"

subsection \<open>The option loop of \<open>main\<close>, lines 48-75\<close>

text \<open>
  \<open>strncmp(s, lit, n) == 0\<close> for strings without an embedded NUL: the first \<open>n\<close>
  characters agree, where a string shorter than \<open>n\<close> must agree as a whole.
\<close>

definition strncmp_eq :: "string \<Rightarrow> string \<Rightarrow> nat \<Rightarrow> bool" where
  "strncmp_eq s lit n = (take n s = take n lit)"

datatype scanned = Unknown_option string | Scanned c_int c_uint "string list"

text \<open>
  The loop runs over \<open>argv[1], argv[2], ...\<close>; the model recurses over the list of the
  arguments not yet looked at and returns those left when the loop ends, so that
  \<open>argc - i\<close> is the length of that list, \<open>argv[i]\<close> its first element.  \<open>argv[i][0]\<close>
  of an empty argument is the NUL, which is not a dash.
\<close>

fun scan_options :: "string list \<Rightarrow> c_int \<Rightarrow> c_uint \<Rightarrow> scanned" where
  "scan_options [] flags engine_types = Scanned flags engine_types []"
| "scan_options (a # rest) flags engine_types =
     (if take 1 a \<noteq> ''-'' then Scanned flags engine_types (a # rest)
      else if strncmp_eq a ''--default'' (length ''--default'') then
        scan_options rest flags (engine_types OR ENGINE_DEFAULT)
      else if strncmp_eq a ''--jit'' (length ''--jit'') then
        scan_options rest flags (engine_types OR ENGINE_JIT)
      else if strncmp_eq a ''--dfa'' (length ''--dfa'') then
        scan_options rest flags (engine_types OR ENGINE_DFA)
      else if strncmp_eq a ''-i'' 2 then
        scan_options rest (flags OR PCRE_CASELESS) engine_types
      else Unknown_option a)"

subsection \<open>\<open>run_engines\<close>, lines 150-320\<close>

text \<open>
  The capture buffer holds \<open>ovecsize * sizeof(int)\<close> bytes, computed in \<open>size_t\<close>.
  One iteration of the printing loop reads \<open>ovector[n]\<close> and \<open>ovector[n + 1]\<close> and then
  adds 2 to the \<open>int\<close> \<open>n\<close>: it is defined when both elements lie inside the buffer and
  \<open>n + 2\<close> does not overflow.
\<close>

definition ovector_bytes :: "c_size \<Rightarrow> c_size" where
  "ovector_bytes ovecsize = ovecsize * 4"

definition ovector_pair :: "c_size \<Rightarrow> (nat \<Rightarrow> c_int) \<Rightarrow> nat \<Rightarrow> (c_int \<times> c_int) option" where
  "ovector_pair ovecsize ov n =
     (if 4 * (n + 2) \<le> unat (ovector_bytes ovecsize) \<and> n + 2 < 2 ^ 31
      then Some (ov n, ov (n + 1)) else None)"

text \<open>
  The loop \<open>for (i = 0, n = 0; i < rc; i++, n += 2)\<close> of lines 206-208, with \<open>k\<close> the
  number of iterations left (\<open>rc - i\<close>).
\<close>

text \<open>The formats of lines 207, 200 and 211.\<close>

definition pair_text :: "c_int \<Rightarrow> c_int \<Rightarrow> string" where
  "pair_text a b = '' ('' @ fmt_d a @ '', '' @ fmt_d b @ '')''"

definition error_text :: "c_int \<Rightarrow> string" where
  "error_text rc = ''error: '' @ fmt_d rc @ [CHR 0x0A]"

definition elapsed_line :: "c_long \<Rightarrow> string" where
  "elapsed_line elapsed = '': '' @ fmt_d elapsed @ '' clock units elapsed.'' @ [CHR 0x0A]"

fun print_pairs :: "c_size \<Rightarrow> (nat \<Rightarrow> c_int) \<Rightarrow> nat \<Rightarrow> nat \<Rightarrow> part" where
  "print_pairs ovecsize ov 0 n = ([], None)"
| "print_pairs ovecsize ov (Suc k) n =
     (case ovector_pair ovecsize ov n of
        Some (a, b) \<Rightarrow>
          emit [Stdout (pair_text a b)] (print_pairs ovecsize ov k (n + 2))
      | None \<Rightarrow> ([], Some Undefined))"

text \<open>
  Lines 195-211 (the same text again at 247-263 and 300-316): what is printed for the
  return value \<open>rc\<close> of the match call and the elapsed time.
\<close>

definition report :: "c_size \<Rightarrow> (nat \<Rightarrow> c_int) \<Rightarrow> c_int \<Rightarrow> c_long \<Rightarrow> part" where
  "report ovecsize ov rc elapsed =
     emit (if rc = PCRE_ERROR_NOMATCH then [Stdout ''no match''] else [])
       (if rc <s 0 then
          ([Stdout (error_text rc)], Some (Exit 2))
        else
          andthen
            (if 0 <s rc then
               emit [Stdout ''match''] (print_pairs ovecsize ov (nat (sint rc)) 0)
             else ([], None))
            ([Stdout (elapsed_line elapsed)], None))"

text \<open>Lines 162-212: the default engine.\<close>

definition run_default :: "world \<Rightarrow> c_int \<Rightarrow> c_size \<Rightarrow> part" where
  "run_default w ncaps len =
     (let ovecsize = (scast ((ncaps + 1) * 3) :: c_size) in
      emit [Call (Malloc (ovector_bytes ovecsize))]
       (if \<not> malloc_ovector w Default then ([Assert_fail ''ovector''], Some Abort)
        else emit [Stdout ''pcre default '', Call (Pcre_study 0)]
         (case pcre_study w Default of
            Some errstr \<Rightarrow>
              ([Stderr (''failed to study the regex: '' @ errstr)], Some (Exit 2))
          | None \<Rightarrow>
         emit [Call Clock]
         (let begin = clock_begin w Default in
          if begin = - 1 then ([Perror ''clock''], Some (Exit 2))
          else emit [Call (Pcre_exec (ucast len) (ucast ovecsize)), Call Clock]
          (let rc = match_rc w Default; elapsed = clock_end w Default - begin in
           if elapsed <s 0 then ([Perror ''clock''], Some (Exit 2))
           else if rc = 0 then ([Stderr ''capture size too small''], Some (Exit 2))
           else report ovecsize (ovector w Default) rc elapsed)))))"

text \<open>Lines 214-264: the JIT engine.\<close>

definition run_jit :: "world \<Rightarrow> c_int \<Rightarrow> c_size \<Rightarrow> part" where
  "run_jit w ncaps len =
     (let ovecsize = (scast ((ncaps + 1) * 3) :: c_size) in
      emit [Call (Malloc (ovector_bytes ovecsize))]
       (if \<not> malloc_ovector w JIT then ([Assert_fail ''ovector''], Some Abort)
        else emit [Stdout ''pcre JIT '', Call (Pcre_study PCRE_STUDY_JIT_COMPILE)]
         (case pcre_study w JIT of
            Some errstr \<Rightarrow>
              ([Stderr (''failed to study the regex: '' @ errstr)], Some (Exit 2))
          | None \<Rightarrow>
         emit [Call Clock]
         (let begin = clock_begin w JIT in
          if begin = - 1 then ([Perror ''clock''], Some (Exit 2))
          else emit [Call (Pcre_exec (ucast len) (ucast ovecsize)), Call Clock]
          (let rc = match_rc w JIT; elapsed = clock_end w JIT - begin in
           if elapsed <s 0 then ([Perror ''clock''], Some (Exit 2))
           else if rc = 0 then ([Stderr ''capture size too small''], Some (Exit 2))
           else report ovecsize (ovector w JIT) rc elapsed)))))"

text \<open>
  Lines 266-317: the DFA engine, with its workspace \<open>int ws[100]\<close>, whose element count
  \<open>sizeof(ws)/sizeof(ws[0])\<close> is passed to the match call.
\<close>

definition run_dfa :: "world \<Rightarrow> c_size \<Rightarrow> part" where
  "run_dfa w len =
     (let ovecsize = (2 :: c_size) in
      emit [Call (Malloc (ovector_bytes ovecsize))]
       (if \<not> malloc_ovector w DFA then ([Assert_fail ''ovector''], Some Abort)
        else emit [Stdout ''pcre DFA '', Call (Pcre_study 0)]
         (case pcre_study w DFA of
            Some errstr \<Rightarrow>
              ([Stderr (''failed to study the regex: '' @ errstr)], Some (Exit 2))
          | None \<Rightarrow>
         emit [Call Clock]
         (let begin = clock_begin w DFA in
          if begin = - 1 then ([Perror ''clock''], Some (Exit 2))
          else emit [Call (Pcre_dfa_exec (ucast len) (ucast ovecsize) 100), Call Clock]
          (let rc = match_rc w DFA; elapsed = clock_end w DFA - begin in
           if elapsed <s 0 then ([Perror ''clock''], Some (Exit 2))
           else
             (let rc = (if rc = 0 then 1 else rc) in
              report ovecsize (ovector w DFA) rc elapsed))))))"

definition footer :: "world \<Rightarrow> string" where
  "footer w = ''(1 clock unit is '' @ clock_unit w @ '' sec)'' @ [CHR 0x0A]"

definition run_engines :: "world \<Rightarrow> c_uint \<Rightarrow> c_int \<Rightarrow> c_size \<Rightarrow> part" where
  "run_engines w engine_types ncaps len =
     andthen
       (if engine_types AND ENGINE_DEFAULT \<noteq> 0 then run_default w ncaps len
        else ([], None))
    (andthen
       (if engine_types AND ENGINE_JIT \<noteq> 0 then run_jit w ncaps len else ([], None))
    (andthen
       (if engine_types AND ENGINE_DFA \<noteq> 0 then run_dfa w len else ([], None))
       ([Stdout (footer w)], None)))"

subsection \<open>\<open>main\<close>, lines 29-147\<close>

text \<open>Lines 97-146: loading the file and running the engines.\<close>

definition load_and_run :: "world \<Rightarrow> c_uint \<Rightarrow> c_int \<Rightarrow> string \<Rightarrow> run" where
  "load_and_run w engine_types ncaps path =
     emit [Call (Fopen path)]
     (if \<not> fopen w path then ([Perror ''open file''], Exit 1)
      else emit [Call Fseek_end]
      (if fseek_end w \<noteq> 0 then ([Perror ''seek to file end''], Exit 1)
       else emit [Call Ftell]
       (let rc = ftell w in
        if rc = - 1 then ([Perror ''get file offset by ftell''], Exit 1)
        else
        (let len = (ucast rc :: c_size) in
         emit [Call Fseek_set]
         (if fseek_set w \<noteq> 0 then ([Perror ''seek to file beginning''], Exit 1)
          else emit [Call (Malloc len)]
          (if \<not> malloc_input w then
             ([Stderr (''failed to allocate '' @ fmt_d len @ '' bytes.'' @ [CHR 0x0A])],
              Exit 1)
           else emit [Call (Fread len)]
           (let short = (fread w < len) in
            if short \<and> feof w then
              ([Call Feof, Stderr (''file truncated.'' @ [CHR 0x0A])], Exit 1)
            else emit (if short then [Call Feof, Perror ''read file''] else [])
            (emit [Call Fclose]
             (if fclose w \<noteq> 0 then ([Perror ''close file''], Exit 1)
              else
                returning (run_engines w engine_types ncaps len) (Exit 0))))))))))"

text \<open>\<open>argv\<close> is the whole argument vector, the program name first; \<open>argc\<close> its length.\<close>

definition main :: "world \<Rightarrow> string list \<Rightarrow> run" where
  "main w argv =
     (if length argv < 3 then usage 1
      else
        (case scan_options (drop 1 argv) 0 0 of
           Unknown_option a \<Rightarrow>
             ([Stderr (''unknown option: '' @ a @ [CHR 0x0A])], Exit 1)
         | Scanned flags engine_types rest \<Rightarrow>
             if engine_types = 0 then
               ([Stderr (''No engine specified.'' @ [CHR 0x0A])], Exit 1)
             else if length rest \<noteq> 2 then usage 1
             else
               emit [Call (Pcre_compile (rest ! 0) flags)]
               (case pcre_compile w (rest ! 0) flags of
                  Compile_failed err_offset errstr \<Rightarrow>
                    ([Stderr (''[error] pos '' @ fmt_d err_offset @ '': '' @ errstr
                               @ [CHR 0x0A])], Exit 2)
                | Compiled \<Rightarrow>
                    emit [Call Pcre_fullinfo]
                    (if fst (pcre_fullinfo w) <s 0 then
                       ([Stderr (''failed to get capture count.'' @ [CHR 0x0A])], Exit 2)
                     else
                       load_and_run w engine_types (snd (pcre_fullinfo w)) (rest ! 1)))))"

subsection \<open>Vocabulary for the properties\<close>

text \<open>
  An argument is looked at as an option when it starts with a dash; the options are the
  arguments after the program name up to the first one that does not.
\<close>

definition is_dash :: "string \<Rightarrow> bool" where
  "is_dash a = (take 1 a = ''-'')"

definition options_of :: "string list \<Rightarrow> string list" where
  "options_of argv = takeWhile is_dash (drop 1 argv)"

definition positionals_of :: "string list \<Rightarrow> string list" where
  "positionals_of argv = dropWhile is_dash (drop 1 argv)"

definition engine_flag :: "engine \<Rightarrow> string" where
  "engine_flag e = (case e of Default \<Rightarrow> ''--default'' | JIT \<Rightarrow> ''--jit'' | DFA \<Rightarrow> ''--dfa'')"

text \<open>An argument selects an engine when it starts with the text of the engine's flag.\<close>

definition selects :: "engine \<Rightarrow> string \<Rightarrow> bool" where
  "selects e a = prefix (engine_flag e) a"

definition caseless :: "string \<Rightarrow> bool" where
  "caseless a = prefix ''-i'' a"

definition recognised :: "string \<Rightarrow> bool" where
  "recognised a = (selects Default a \<or> selects JIT a \<or> selects DFA a \<or> caseless a)"

definition engine_bit :: "engine \<Rightarrow> c_uint" where
  "engine_bit e = (case e of Default \<Rightarrow> ENGINE_DEFAULT | JIT \<Rightarrow> ENGINE_JIT | DFA \<Rightarrow> ENGINE_DFA)"

definition selected :: "c_uint \<Rightarrow> engine \<Rightarrow> bool" where
  "selected engine_types e = (engine_types AND engine_bit e \<noteq> 0)"

text \<open>
  An engine block gets as far as its match call when the buffer was allocated, the study
  left no error and the first clock reading succeeded.
\<close>

definition reached :: "world \<Rightarrow> engine \<Rightarrow> bool" where
  "reached w e = (malloc_ovector w e \<and> pcre_study w e = None \<and> clock_begin w e \<noteq> - 1)"

text \<open>The texts of the four options.\<close>

definition option_texts :: "string list" where
  "option_texts = [''-i'', ''--default'', ''--jit'', ''--dfa'']"

text \<open>One engine block of \<open>run_engines\<close>.\<close>

definition block :: "world \<Rightarrow> engine \<Rightarrow> c_int \<Rightarrow> c_size \<Rightarrow> part" where
  "block w e ncaps len =
     (case e of Default \<Rightarrow> run_default w ncaps len
      | JIT \<Rightarrow> run_jit w ncaps len
      | DFA \<Rightarrow> run_dfa w len)"

text \<open>The block of an engine when the engine is selected, nothing otherwise.\<close>

definition step :: "world \<Rightarrow> c_uint \<Rightarrow> engine \<Rightarrow> c_int \<Rightarrow> c_size \<Rightarrow> part" where
  "step w engine_types e ncaps len =
     (if selected engine_types e then block w e ncaps len else ([], None))"

text \<open>The name an engine block prints first (lines 168, 220 and 273).\<close>

definition banner :: "engine \<Rightarrow> string" where
  "banner e = (case e of Default \<Rightarrow> ''pcre default '' | JIT \<Rightarrow> ''pcre JIT '' | DFA \<Rightarrow> ''pcre DFA '')"

text \<open>
  The engines that started, in the order of the trace: an engine starts by printing its
  name.
\<close>

fun started :: "event \<Rightarrow> engine option" where
  "started (Stdout s) =
     (if s = banner Default then Some Default
      else if s = banner JIT then Some JIT
      else if s = banner DFA then Some DFA
      else None)"
| "started ev = None"

definition engines_started :: "event list \<Rightarrow> engine list" where
  "engines_started tr = List.map_filter started tr"

text \<open>
  The steps of an engine's run that a trace shows: the name printed, the call of
  \<open>pcre_study\<close> with its options, the match call (\<open>pcre_exec\<close> or \<open>pcre_dfa_exec\<close>) and
  the elapsed time printed at the end of the engine's line.
\<close>

datatype mark = Named engine | Studied c_int | Matched | Matched_dfa | Timed

fun mark_of :: "event \<Rightarrow> mark option" where
  "mark_of (Stdout s) =
     (case started (Stdout s) of
        Some e \<Rightarrow> Some (Named e)
      | None \<Rightarrow> if prefix '': '' s then Some Timed else None)"
| "mark_of (Call (Pcre_study options)) = Some (Studied options)"
| "mark_of (Call (Pcre_exec len n)) = Some Matched"
| "mark_of (Call (Pcre_dfa_exec len n k)) = Some Matched_dfa"
| "mark_of ev = None"

definition marks :: "event list \<Rightarrow> mark list" where
  "marks tr = List.map_filter mark_of tr"


fun conversion_line :: "event \<Rightarrow> bool" where
  "conversion_line (Stdout s) = prefix ''(1 clock unit is '' s"
| "conversion_line ev = False"

text \<open>
  The texts an engine block prints to standard output after the name of its engine:
  the result of the match, the pairs of offsets, the engine's error code and the elapsed
  time.
\<close>

definition result_text :: "string \<Rightarrow> bool" where
  "result_text s =
     (s = ''no match'' \<or> s = ''match'' \<or>
      (\<exists>a b. s = pair_text a b) \<or>
      (\<exists>rc. rc <s 0 \<and> s = error_text rc) \<or>
      (\<exists>elapsed. s = elapsed_line elapsed))"

text \<open>
  The allocations and match calls of a trace, which carry the sizes of the buffers.
\<close>

fun sizing :: "event \<Rightarrow> bool" where
  "sizing (Call (Malloc n)) = True"
| "sizing (Call (Pcre_exec len n)) = True"
| "sizing (Call (Pcre_dfa_exec len n k)) = True"
| "sizing ev = False"

text \<open>The events that write to standard error, and the library calls.\<close>

fun to_stderr :: "event \<Rightarrow> bool" where
  "to_stderr (Stderr s) = True"
| "to_stderr (Perror s) = True"
| "to_stderr (Assert_fail s) = True"
| "to_stderr ev = False"

fun is_call :: "event \<Rightarrow> bool" where
  "is_call (Call c) = True"
| "is_call ev = False"

text \<open>
  What happens before the engines: library calls and writes to standard error, none of
  them a step of an engine's run.
\<close>

definition setup_event :: "event \<Rightarrow> bool" where
  "setup_event ev = ((is_call ev \<or> to_stderr ev) \<and> mark_of ev = None)"

subsection \<open>Sample environments\<close>

text \<open>
  An environment in which every call succeeds: the pattern compiles and has no capture
  group, the file has six bytes and is read whole, and every engine finds the match
  \<open>(0, 3)\<close> between clock readings 10 and 15.  It is what the program meets on
  \<open>sregex --default abc f\<close> when \<open>f\<close> holds \<open>abcxyz\<close>.
\<close>

definition calm :: world where
  "calm = \<lparr>
     pcre_compile = (\<lambda>pattern options. Compiled),
     pcre_fullinfo = (0, 0),
     fopen = (\<lambda>path. True),
     fseek_end = 0,
     ftell = 6,
     fseek_set = 0,
     malloc_input = True,
     fread = 6,
     feof = False,
     fclose = 0,
     malloc_ovector = (\<lambda>e. True),
     pcre_study = (\<lambda>e. None),
     clock_begin = (\<lambda>e. 10),
     clock_end = (\<lambda>e. 15),
     match_rc = (\<lambda>e. 1),
     ovector = (\<lambda>e n. if n = 1 then 3 else 0),
     clock_unit = ''0.000001'' \<rparr>"

section \<open>Properties\<close>

subsection \<open>Traces\<close>

lemma banner_simps [simp]:
  "banner Default = ''pcre default ''" "banner JIT = ''pcre JIT ''" "banner DFA = ''pcre DFA ''"
  by (simp_all add: banner_def)

lemma emit_simps [simp]: "fst (emit es r) = es @ fst r" "snd (emit es r) = snd r"
  by (simp_all add: emit_def)

lemma emit_pair [simp]: "emit es (tr, r) = (es @ tr, r)"
  by (simp add: emit_def)

lemma andthen_simps [simp]:
  "andthen (tr, Some s) q = (tr, Some s)"
  "andthen (tr, None) q = emit tr q"
  by (simp_all add: andthen_def)

subsection \<open>The option loop\<close>

lemma strncmp_eq_prefix: "strncmp_eq a lit (length lit) = prefix lit a"
  unfolding strncmp_eq_def
  by (metis append_eq_conv_conj prefix_def take_all_iff order_refl)

lemma selects_simps:
  "selects Default a = prefix ''--default'' a"
  "selects JIT a = prefix ''--jit'' a"
  "selects DFA a = prefix ''--dfa'' a"
  by (simp_all add: selects_def engine_flag_def)

lemma selects_is_dash: "selects e a \<Longrightarrow> is_dash a"
  by (cases e) (auto simp: selects_simps is_dash_def prefix_def)

lemma caseless_is_dash: "caseless a \<Longrightarrow> is_dash a"
  by (auto simp: caseless_def is_dash_def prefix_def)

lemma selects_unique: "selects e a \<Longrightarrow> selects e' a \<Longrightarrow> e = e'"
  by (cases e; cases e') (auto simp: selects_simps prefix_def)

lemma selects_not_caseless: "selects e a \<Longrightarrow> \<not> caseless a"
  by (cases e) (auto simp: selects_simps caseless_def prefix_def)

lemma selected_bit:
  "selected et Default = bit et 0" "selected et JIT = bit et 1" "selected et DFA = bit et 2"
  by (simp_all add: selected_def engine_bit_def ENGINE_DEFAULT_def ENGINE_JIT_def ENGINE_DFA_def
      and_exp_eq_0_iff_not_bit [where n = 0, simplified]
      and_exp_eq_0_iff_not_bit [where n = 1, simplified]
      and_exp_eq_0_iff_not_bit [where n = 2, simplified])

lemma engine_bits_nonzero [simp]:
  "ENGINE_DEFAULT \<noteq> 0" "ENGINE_JIT \<noteq> 0" "ENGINE_DFA \<noteq> 0"
  by (simp_all add: ENGINE_DEFAULT_def ENGINE_JIT_def ENGINE_DFA_def)

lemma strncmp_eq_i: "strncmp_eq a ''-i'' 2 = prefix ''-i'' a"
  using strncmp_eq_prefix [of a "''-i''"] by (simp add: numeral_2_eq_2)

lemma scan_options_cases:
  "scan_options (a # rest) flags et =
     (if \<not> is_dash a then Scanned flags et (a # rest)
      else if selects Default a then scan_options rest flags (et OR ENGINE_DEFAULT)
      else if selects JIT a then scan_options rest flags (et OR ENGINE_JIT)
      else if selects DFA a then scan_options rest flags (et OR ENGINE_DFA)
      else if caseless a then scan_options rest (flags OR PCRE_CASELESS) et
      else Unknown_option a)"
  unfolding scan_options.simps strncmp_eq_prefix strncmp_eq_i is_dash_def selects_simps
    caseless_def
  by simp

declare scan_options.simps(2) [simp del]

lemma selected_or:
  "selected (et OR ENGINE_DEFAULT) e = (selected et e \<or> e = Default)"
  "selected (et OR ENGINE_JIT) e = (selected et e \<or> e = JIT)"
  "selected (et OR ENGINE_DFA) e = (selected et e \<or> e = DFA)"
  by (cases e; simp add: selected_bit bit_or_iff ENGINE_DEFAULT_def ENGINE_JIT_def ENGINE_DFA_def bit_simps)+

lemma scan_options_Scanned:
  "scan_options as flags et = Scanned flags' et' rest \<Longrightarrow>
     rest = dropWhile is_dash as \<and>
     (\<forall>a \<in> set (takeWhile is_dash as). recognised a) \<and>
     flags' = (if \<exists>a \<in> set (takeWhile is_dash as). caseless a
               then flags OR PCRE_CASELESS else flags) \<and>
     (\<forall>e. selected et' e = (selected et e \<or> (\<exists>a \<in> set (takeWhile is_dash as). selects e a))) \<and>
     (et' = 0 \<longleftrightarrow> et = 0 \<and> (\<forall>a \<in> set (takeWhile is_dash as). \<forall>e. \<not> selects e a))"
proof (induction as arbitrary: flags et)
  case Nil
  then show ?case by simp
next
  case (Cons a as)
  show ?case
  proof (cases "is_dash a")
    case False
    with Cons.prems show ?thesis by (auto simp: scan_options_cases)
  next
    case dash: True
    consider (d) "selects Default a" | (j) "selects JIT a" | (f) "selects DFA a"
      | (i) "\<forall>e. \<not> selects e a" "caseless a" | (u) "\<forall>e. \<not> selects e a" "\<not> caseless a"
      by (metis engine.exhaust)
    then show ?thesis
    proof cases
      case d
      then have "scan_options as flags (et OR ENGINE_DEFAULT) = Scanned flags' et' rest"
        using Cons.prems dash by (simp add: scan_options_cases)
      from Cons.IH [OF this] d dash show ?thesis
        by (auto simp: selected_or recognised_def or_eq_0_iff dest: selects_unique selects_not_caseless)
    next
      case j
      then have "\<not> selects Default a" using selects_unique by blast
      with j have "scan_options as flags (et OR ENGINE_JIT) = Scanned flags' et' rest"
        using Cons.prems dash by (simp add: scan_options_cases)
      from Cons.IH [OF this] j dash show ?thesis
        by (auto simp: selected_or recognised_def or_eq_0_iff dest: selects_unique selects_not_caseless)
    next
      case f
      then have "\<not> selects Default a" "\<not> selects JIT a" using selects_unique by blast+
      with f have "scan_options as flags (et OR ENGINE_DFA) = Scanned flags' et' rest"
        using Cons.prems dash by (simp add: scan_options_cases)
      from Cons.IH [OF this] f dash show ?thesis
        by (auto simp: selected_or recognised_def or_eq_0_iff dest: selects_unique selects_not_caseless)
    next
      case i
      then have "scan_options as (flags OR PCRE_CASELESS) et = Scanned flags' et' rest"
        using Cons.prems dash by (simp add: scan_options_cases)
      from Cons.IH [OF this] i dash show ?thesis
        by (auto simp: recognised_def or.assoc)
    next
      case u
      with Cons.prems dash show ?thesis by (simp add: scan_options_cases)
    qed
  qed
qed

lemma scan_options_recognised:
  "\<forall>a \<in> set (takeWhile is_dash as). recognised a \<Longrightarrow>
     \<exists>flags' et'. scan_options as flags et = Scanned flags' et' (dropWhile is_dash as)"
proof (induction as arbitrary: flags et)
  case Nil
  then show ?case by simp
next
  case (Cons a as)
  then show ?case
    by (auto simp: scan_options_cases recognised_def)
qed

lemma scan_options_unknown:
  "\<forall>x \<in> set pre. recognised x \<Longrightarrow> is_dash a \<Longrightarrow> \<not> recognised a \<Longrightarrow>
     scan_options (pre @ a # post) flags et = Unknown_option a"
proof (induction pre arbitrary: flags et)
  case Nil
  then show ?case by (simp add: scan_options_cases recognised_def)
next
  case (Cons x pre)
  then have "is_dash x"
    by (auto simp: recognised_def dest: selects_is_dash caseless_is_dash)
  with Cons show ?case
    by (auto simp: scan_options_cases recognised_def)
qed

lemma selected_zero [simp]: "\<not> selected 0 e"
  by (simp add: selected_def)

lemma scan_summary:
  assumes "\<forall>a \<in> set (options_of argv). recognised a"
  shows "\<exists>flags et. scan_options (drop 1 argv) 0 0 = Scanned flags et (positionals_of argv) \<and>
     (et = 0 \<longleftrightarrow> (\<forall>a \<in> set (options_of argv). \<forall>e. \<not> selects e a)) \<and>
     (\<forall>e. selected et e = (\<exists>a \<in> set (options_of argv). selects e a)) \<and>
     flags = (if \<exists>a \<in> set (options_of argv). caseless a then PCRE_CASELESS else 0)"
proof -
  from assms obtain flags et where
    s: "scan_options (drop 1 argv) 0 0 = Scanned flags et (positionals_of argv)"
    using scan_options_recognised [of "drop 1 argv" 0 0]
    by (auto simp: options_of_def positionals_of_def)
  from scan_options_Scanned [OF s] s show ?thesis
    by (simp add: options_of_def)
qed

lemma main_usage_short: "length argv < 3 \<Longrightarrow> main w argv = ([Stderr usage_text], Exit 1)"
  by (simp add: main_def usage_def)

lemma main_no_engine:
  assumes "3 \<le> length argv" "\<forall>a \<in> set (options_of argv). recognised a"
    "\<forall>a \<in> set (options_of argv). \<forall>e. \<not> selects e a"
  shows "main w argv = ([Stderr (''No engine specified.'' @ [CHR 0x0A])], Exit 1)"
proof -
  from scan_summary [OF assms(2)] assms(3) obtain flags where
    "scan_options (drop 1 argv) 0 0 = Scanned flags 0 (positionals_of argv)"
    by auto
  with assms(1) show ?thesis by (simp add: main_def)
qed

lemma main_unknown:
  assumes "3 \<le> length argv" "drop 1 argv = pre @ a # post" "\<forall>x \<in> set pre. recognised x"
    "is_dash a" "\<not> recognised a"
  shows "main w argv = ([Stderr (''unknown option: '' @ a @ [CHR 0x0A])], Exit 1)"
  using assms scan_options_unknown [of pre a post 0 0] by (simp add: main_def)

lemma options_of_simps:
  "options_of [] = []" "options_of [p] = []"
  "options_of (p # a # rest) = (if is_dash a then a # options_of (p # rest) else [])"
  by (simp_all add: options_of_def)

lemma is_dash_simps [simp]: "is_dash [] = False" "is_dash (c # cs) = (c = CHR ''-'')"
  by (simp_all add: is_dash_def)

lemma all_engine: "(\<forall>e. P e) = (P Default \<and> P JIT \<and> P DFA)"
  by (metis engine.exhaust)

lemma ex_engine: "(\<exists>e. P e) = (P Default \<or> P JIT \<or> P DFA)"
  by (metis engine.exhaust)

lemmas vocabulary_simps = options_of_simps recognised_def selects_simps caseless_def
  all_engine ex_engine

subsection \<open>Argument errors\<close>

text \<open>
  C10.  When fewer than two arguments follow the program name, \<open>main\<close> prints the usage
  text and exits with status 1 whatever the arguments are, so no option is looked at
  before.  With at least two arguments, when every option is recognised and none selects
  an engine, \<open>main\<close> reports the missing engine and exits with status 1, however many
  positional arguments follow: the count of the positional arguments is checked later.
\<close>

theorem argument_error_precedence:
  "(length argv < 3 \<longrightarrow> main w argv = ([Stderr usage_text], Exit 1)) \<and>
   (3 \<le> length argv \<and> (\<forall>a \<in> set (options_of argv). recognised a \<and> (\<forall>e. \<not> selects e a)) \<longrightarrow>
      main w argv = ([Stderr (''No engine specified.'' @ [CHR 0x0A])], Exit 1))"
  using main_usage_short [of argv w] main_no_engine [of argv w] by blast

theorem argument_error_precedence_witness:
  "main calm [''sregex'', ''--bogus''] = ([Stderr usage_text], Exit 1) \<and>
   main calm [''sregex'', ''-i'', ''foo''] =
     ([Stderr (''No engine specified.'' @ [CHR 0x0A])], Exit 1)"
  using argument_error_precedence [of "[''sregex'', ''--bogus'']" calm]
    argument_error_precedence [of "[''sregex'', ''-i'', ''foo'']" calm]
  by (simp add: vocabulary_simps)

lemmas run_defs = main_def load_and_run_def run_engines_def run_default_def run_jit_def
  run_dfa_def report_def usage_def returning_def ENGINE_DEFAULT_def ENGINE_JIT_def ENGINE_DFA_def
  PCRE_CASELESS_def PCRE_STUDY_JIT_COMPILE_def PCRE_ERROR_NOMATCH_def ovector_pair_def
  ovector_bytes_def pair_text_def error_text_def elapsed_line_def footer_def Let_def
  word_sless_alt scan_options_cases selects_simps caseless_def

lemma fmt_d_samples:
  "fmt_d (0 :: c_int) = ''0''" "fmt_d (3 :: c_int) = ''3''" "fmt_d (5 :: c_long) = ''5''"
  "fmt_d (- 1 :: c_int) = ''-1''" "fmt_d (- 8 :: c_int) = ''-8''" "fmt_d (1 :: c_int) = ''1''"
  by code_simp+

lemma scan_options_first_unknown:
  "find (\<lambda>a. \<not> recognised a) (takeWhile is_dash as) = Some a \<Longrightarrow>
     scan_options as flags et = Unknown_option a"
proof (induction as arbitrary: flags et)
  case Nil
  then show ?case by simp
next
  case (Cons x as)
  then show ?case
    by (auto simp: scan_options_cases recognised_def split: if_splits)
qed

lemma main_first_unknown:
  assumes "3 \<le> length argv" "find (\<lambda>a. \<not> recognised a) (options_of argv) = Some a"
  shows "main w argv = ([Stderr (''unknown option: '' @ a @ [CHR 0x0A])], Exit 1)"
  using assms
    scan_options_first_unknown [where a = a and as = "drop 1 argv" and flags = 0 and et = 0]
  by (simp add: main_def options_of_def)

text \<open>
  C7, as amended.  When no option selects an engine, \<open>main\<close> makes no library call, so
  the pattern is not compiled and the file is not opened, and it ends with status 1
  after one message on standard error.  The message is the usage text when fewer than
  two arguments follow the program name; otherwise it is \<open>unknown option: a\<close> for the
  first option \<open>a\<close> that is not \<open>-i\<close>, and \<open>No engine specified.\<close> when there is none,
  as on \<open>sregex -i pattern file\<close>.
\<close>

theorem no_engine_specified:
  assumes "\<forall>a \<in> set (options_of argv). \<forall>e. \<not> selects e a"
  shows "filter is_call (fst (main w argv)) = [] \<and>
    main w argv =
      ([Stderr
         (if length argv < 3 then usage_text
          else case find (\<lambda>a. \<not> caseless a) (options_of argv) of
            None \<Rightarrow> ''No engine specified.'' @ [CHR 0x0A]
          | Some a \<Rightarrow> ''unknown option: '' @ a @ [CHR 0x0A])], Exit 1)"
proof -
  have same: "find (\<lambda>a. \<not> caseless a) (options_of argv) =
      find (\<lambda>a. \<not> recognised a) (options_of argv)"
    using assms by (intro find_cong) (auto simp: recognised_def)
  have "main w argv =
      ([Stderr
         (if length argv < 3 then usage_text
          else case find (\<lambda>a. \<not> caseless a) (options_of argv) of
            None \<Rightarrow> ''No engine specified.'' @ [CHR 0x0A]
          | Some a \<Rightarrow> ''unknown option: '' @ a @ [CHR 0x0A])], Exit 1)"
  proof (cases "length argv < 3")
    case True
    then show ?thesis by (simp add: main_usage_short)
  next
    case long: False
    show ?thesis
    proof (cases "find (\<lambda>a. \<not> recognised a) (options_of argv)")
      case None
      then have "\<forall>a \<in> set (options_of argv). recognised a"
        by (simp add: find_None_iff)
      with long assms None same show ?thesis
        by (simp add: main_no_engine)
    next
      case (Some a)
      with long same show ?thesis
        by (simp add: main_first_unknown)
    qed
  qed
  then show ?thesis by simp
qed

theorem no_engine_specified_witness:
  "main calm [''sregex'', ''-i'', ''abc'', ''f''] =
     ([Stderr (''No engine specified.'' @ [CHR 0x0A])], Exit 1) \<and>
   main calm [''sregex'', ''abc'', ''f''] =
     ([Stderr (''No engine specified.'' @ [CHR 0x0A])], Exit 1) \<and>
   main calm [''sregex'', ''-x'', ''abc'', ''f''] =
     ([Stderr (''unknown option: -x'' @ [CHR 0x0A])], Exit 1)"
  using no_engine_specified [where argv = "[''sregex'', ''-i'', ''abc'', ''f'']" and w = calm]
    no_engine_specified [where argv = "[''sregex'', ''abc'', ''f'']" and w = calm]
    no_engine_specified [where argv = "[''sregex'', ''-x'', ''abc'', ''f'']" and w = calm]
  by (simp add: vocabulary_simps)

text \<open>
  On \<open>sregex -i\<close> no engine is selected, and what is printed is the usage text, not
  \<open>No engine specified.\<close>
\<close>

theorem no_engine_usage_counterexample:
  "main calm [''sregex'', ''-i''] = ([Stderr usage_text], Exit 1) \<and>
   usage_text \<noteq> ''No engine specified.'' @ [CHR 0x0A]"
  by (simp add: main_def usage_def usage_text_def)

lemma scan_options_same:
  assumes "\<forall>x \<in> set pre. recognised x"
    and "is_dash a" "is_dash b" "\<forall>e. selects e a = selects e b" "caseless a = caseless b"
    and "recognised a"
  shows "scan_options (pre @ a # post) flags et = scan_options (pre @ b # post) flags et"
  using assms(1)
proof (induction pre arbitrary: flags et)
  case Nil
  from assms(2-) show ?case by (auto simp: scan_options_cases recognised_def)
next
  case (Cons x pre)
  then have "is_dash x"
    by (auto simp: recognised_def dest: selects_is_dash caseless_is_dash)
  with Cons show ?case by (simp add: scan_options_cases)
qed

lemma prefix_option_text:
  assumes "opt \<in> set option_texts" "prefix opt a"
  shows "is_dash a \<and> is_dash opt \<and> (\<forall>e. selects e a = selects e opt) \<and>
    caseless a = caseless opt \<and> recognised a"
  using assms
  by (auto simp: option_texts_def recognised_def selects_simps caseless_def all_engine prefix_def)

lemma main_cong_scan:
  assumes "length argv = length argv'" "scan_options (drop 1 argv) 0 0 = scan_options (drop 1 argv') 0 0"
  shows "main w argv = main w argv'"
  using assms by (simp add: main_def)

text \<open>
  C5, as amended.  Let \<open>a\<close> be an argument that starts with a dash and is reached by
  the option loop (every argument before it is a recognised option), on a command line
  with at least two arguments.  If \<open>a\<close> does not start with one of the four option
  texts, \<open>main\<close> writes \<open>unknown option: a\<close> to standard error and exits with status 1.
  If \<open>a\<close> starts with an option text, it is accepted, and the run is the one of the
  command line with that option text in its place.
\<close>

theorem option_tokens:
  assumes "argv = prog # pre @ a # post" "\<forall>x \<in> set pre. recognised x" "is_dash a"
    "2 \<le> length (pre @ a # post)"
  shows "(\<not> recognised a \<longrightarrow>
           main w argv = ([Stderr (''unknown option: '' @ a @ [CHR 0x0A])], Exit 1)) \<and>
         (\<forall>opt \<in> set option_texts. prefix opt a \<longrightarrow>
           main w argv = main w (prog # pre @ opt # post))"
proof (intro conjI impI ballI)
  assume "\<not> recognised a"
  with assms show "main w argv = ([Stderr (''unknown option: '' @ a @ [CHR 0x0A])], Exit 1)"
    by (intro main_unknown [where pre = pre and post = post]) auto
next
  fix opt assume "opt \<in> set option_texts" "prefix opt a"
  from prefix_option_text [OF this] assms(2)
  have "scan_options (pre @ a # post) 0 0 = scan_options (pre @ opt # post) 0 0"
    by (intro scan_options_same) auto
  with assms(1) show "main w argv = main w (prog # pre @ opt # post)"
    by (intro main_cong_scan) auto
qed

theorem option_tokens_witness:
  "main calm [''sregex'', ''--default'', ''-x'', ''abc'', ''f''] =
     ([Stderr (''unknown option: -x'' @ [CHR 0x0A])], Exit 1) \<and>
   main calm [''sregex'', ''--defaultxyz'', ''abc'', ''f''] =
     main calm [''sregex'', ''--default'', ''abc'', ''f'']"
  using option_tokens [of "[''sregex'', ''--default'', ''-x'', ''abc'', ''f'']" "''sregex''"
      "[''--default'']" "''-x''" "[''abc'', ''f'']" calm]
    option_tokens [of "[''sregex'', ''--defaultxyz'', ''abc'', ''f'']" "''sregex''"
      "[]" "''--defaultxyz''" "[''abc'', ''f'']" calm]
  by (simp add: recognised_def selects_simps caseless_def option_texts_def)

text \<open>
  The arguments \<open>--defaultxyz\<close> and \<open>-ix\<close> are not rejected: the pattern is compiled
  caseless, the default engine runs and the process ends with status 0.
\<close>

theorem option_prefix_counterexample:
  "main calm [''sregex'', ''--defaultxyz'', ''-ix'', ''abc'', ''f''] =
     ([Call (Pcre_compile ''abc'' 1), Call Pcre_fullinfo, Call (Fopen ''f''), Call Fseek_end,
       Call Ftell, Call Fseek_set, Call (Malloc 6), Call (Fread 6), Call Fclose,
       Call (Malloc 12), Stdout ''pcre default '', Call (Pcre_study 0), Call Clock,
       Call (Pcre_exec 6 3), Call Clock, Stdout ''match'', Stdout '' (0, 3)'',
       Stdout ('': 5 clock units elapsed.'' @ [CHR 0x0A]),
       Stdout (''(1 clock unit is 0.000001 sec)'' @ [CHR 0x0A])], Exit 0)"
  by (simp add: run_defs calm_def fmt_d_samples)

text \<open>
  C9.  On a command line of recognised options, one of which selects an engine, followed
  by a pattern and a path, a pattern that fails to compile ends the process with status
  2 right after the call of \<open>pcre_compile\<close>: the only library call made is that one, so
  \<open>fopen\<close> is never called, whatever it would have answered.
\<close>

theorem compile_before_open:
  assumes "argv = prog # opts @ [pattern, path]"
    and "\<forall>a \<in> set opts. recognised a" "\<exists>a \<in> set opts. \<exists>e. selects e a" "\<not> is_dash pattern"
    and "flags = (if \<exists>a \<in> set opts. caseless a then PCRE_CASELESS else 0)"
    and "pcre_compile w pattern flags = Compile_failed err_offset errstr"
  shows "main w argv =
    ([Call (Pcre_compile pattern flags),
      Stderr (''[error] pos '' @ fmt_d err_offset @ '': '' @ errstr @ [CHR 0x0A])], Exit 2)"
proof -
  have dashes: "\<forall>a \<in> set opts. is_dash a"
    using assms(2) by (auto simp: recognised_def dest: selects_is_dash caseless_is_dash)
  then have o: "options_of argv = opts" and p: "positionals_of argv = [pattern, path]"
    using assms(1,4) by (simp_all add: options_of_def positionals_of_def)
  from scan_summary [of argv] assms(2,3,5) o p obtain et where
    "scan_options (drop 1 argv) 0 0 = Scanned flags et [pattern, path]" "et \<noteq> 0"
    by auto
  with assms(1,6) show ?thesis by (simp add: main_def)
qed

theorem compile_before_open_witness:
  "main (calm\<lparr>pcre_compile := (\<lambda>pattern options. Compile_failed 1 ''missing )''),
                fopen := (\<lambda>path. False)\<rparr>)
     [''sregex'', ''-i'', ''--dfa'', ''('', ''nosuchfile''] =
   ([Call (Pcre_compile ''('' 1), Stderr (''[error] pos 1: missing )'' @ [CHR 0x0A])], Exit 2)"
  using compile_before_open [of "[''sregex'', ''-i'', ''--dfa'', ''('', ''nosuchfile'']" "''sregex''"
      "[''-i'', ''--dfa'']" "''(''" "''nosuchfile''" 1
      "calm\<lparr>pcre_compile := (\<lambda>pattern options. Compile_failed 1 ''missing )''),
                fopen := (\<lambda>path. False)\<rparr>" 1 "''missing )''"]
  by (simp add: recognised_def selects_simps caseless_def ex_engine PCRE_CASELESS_def fmt_d_samples)

subsection \<open>The engine blocks\<close>

lemma engines_started_simps [simp]:
  "engines_started [] = []"
  "engines_started (ev # tr) = (case started ev of None \<Rightarrow> engines_started tr | Some e \<Rightarrow> e # engines_started tr)"
  "engines_started (tr @ tr') = engines_started tr @ engines_started tr'"
  by (simp_all add: engines_started_def List.map_filter_def split: option.splits)

lemma result_textI:
  "result_text ''no match''" "result_text ''match''" "result_text (pair_text a b)"
  "rc <s 0 \<Longrightarrow> result_text (error_text rc)" "result_text (elapsed_line elapsed)"
  by (auto simp: result_text_def)


lemma print_pairs_events:
  "ev \<in> set (fst (print_pairs sz ov k n)) \<Longrightarrow> \<exists>s. ev = Stdout s \<and> result_text s"
proof (induction k arbitrary: n)
  case 0
  then show ?case by simp
next
  case (Suc k)
  then show ?case
    by (auto simp: result_textI split: option.splits)
qed

lemma print_pairs_status: "snd (print_pairs sz ov k n) = Some st \<Longrightarrow> st = Undefined"
  by (induction k arbitrary: n) (auto split: option.splits)

lemma report_events:
  assumes "ev \<in> set (fst (report sz ov rc elapsed))"
  shows "\<exists>s. ev = Stdout s \<and> result_text s"
proof (cases "print_pairs sz ov (nat (sint rc)) 0")
  case (Pair tr st)
  with print_pairs_events [of _ sz ov "nat (sint rc)" 0]
  have "\<forall>ev \<in> set tr. \<exists>s. ev = Stdout s \<and> result_text s" by auto
  with assms Pair show ?thesis
    by (cases st) (auto simp: report_def result_textI split: if_splits)
qed

lemma report_status:
  assumes "report sz ov rc elapsed = (tr, Some st)"
  shows "st = Undefined \<or> (st = Exit 2 \<and> rc <s 0 \<and> tr \<noteq> [] \<and> last tr = Stdout (error_text rc))"
proof (cases "print_pairs sz ov (nat (sint rc)) 0")
  case (Pair tr' st')
  with print_pairs_status [of sz ov "nat (sint rc)" 0] assms show ?thesis
    by (cases st') (auto simp: report_def split: if_splits)
qed



lemmas block_defs = block_def run_default_def run_jit_def run_dfa_def Let_def




lemma block_events:
  assumes "ev \<in> set (fst (block w e ncaps len))"
  shows "is_call ev \<or> to_stderr ev \<or> (\<exists>s. ev = Stdout s \<and> (s = banner e \<or> result_text s))"
  using assms
  by (cases e) (auto simp: block_defs banner_def split: option.splits if_splits dest: report_events)

lemma report_status_last:
  assumes "snd (report sz ov rc elapsed) = Some st" "st \<noteq> Undefined"
  shows "fst (report sz ov rc elapsed) \<noteq> [] \<and> st = Exit 2 \<and> rc <s 0 \<and>
    last (fst (report sz ov rc elapsed)) = Stdout (error_text rc)"
  using report_status [of sz ov rc elapsed "fst (report sz ov rc elapsed)" st] assms
  by (simp add: prod_eq_iff)

lemma block_status:
  assumes "snd (block w e ncaps len) = Some st" "st \<noteq> Undefined"
  shows "fst (block w e ncaps len) \<noteq> [] \<and> (st = Abort \<or> st = Exit 2) \<and>
    (to_stderr (last (fst (block w e ncaps len))) \<or>
     st = Exit 2 \<and> match_rc w e <s 0 \<and>
     last (fst (block w e ncaps len)) = Stdout (error_text (match_rc w e)))"
proof (cases e)
  case Default
  with assms show ?thesis
    by (simp add: block_defs split: option.splits if_splits)
      (use report_status_last in fastforce)+
next
  case JIT
  with assms show ?thesis
    by (simp add: block_defs split: option.splits if_splits)
      (use report_status_last in fastforce)+
next
  case DFA
  with assms show ?thesis
    by (simp add: block_defs split: option.splits if_splits)
      (use report_status_last in \<open>fastforce simp: word_sless_alt\<close>)+
qed

lemma andthen_fst_snd:
  "snd (andthen p q) = (case snd p of Some s \<Rightarrow> Some s | None \<Rightarrow> snd q)"
  "fst (andthen p q) = (case snd p of Some s \<Rightarrow> fst p | None \<Rightarrow> fst p @ fst q)"
  by (simp_all add: andthen_def split: option.splits)

lemma run_engines_steps:
  "run_engines w et ncaps len =
     andthen (step w et Default ncaps len)
       (andthen (step w et JIT ncaps len)
         (andthen (step w et DFA ncaps len) ([Stdout (footer w)], None)))"
  by (simp add: run_engines_def step_def selected_def engine_bit_def block_def)




lemma footer_event [simp]:
  "started (Stdout (footer w)) = None" "conversion_line (Stdout (footer w))"
  by (simp_all add: footer_def)


lemma step_status:
  assumes "snd (step w et e ncaps len) = Some st" "st \<noteq> Undefined"
  shows "fst (step w et e ncaps len) \<noteq> [] \<and> (st = Abort \<or> st = Exit 2) \<and>
    (to_stderr (last (fst (step w et e ncaps len))) \<or>
     st = Exit 2 \<and> match_rc w e <s 0 \<and>
     last (fst (step w et e ncaps len)) = Stdout (error_text (match_rc w e)))"
  using assms block_status [of w e ncaps len st] by (simp add: step_def split: if_splits)

lemma run_engines_status:
  assumes "snd (run_engines w et ncaps len) = Some st" "st \<noteq> Undefined"
  shows "fst (run_engines w et ncaps len) \<noteq> [] \<and> (st = Abort \<or> st = Exit 2) \<and>
    (to_stderr (last (fst (run_engines w et ncaps len))) \<or>
     st = Exit 2 \<and> (\<exists>e. match_rc w e <s 0 \<and>
       last (fst (run_engines w et ncaps len)) = Stdout (error_text (match_rc w e))))"
proof -
  let ?d = "step w et Default ncaps len" and ?j = "step w et JIT ncaps len"
    and ?f = "step w et DFA ncaps len"
  consider (d) "snd ?d = Some st" "fst (run_engines w et ncaps len) = fst ?d"
    | (j) "snd ?j = Some st" "fst (run_engines w et ncaps len) = fst ?d @ fst ?j"
    | (f) "snd ?f = Some st" "fst (run_engines w et ncaps len) = fst ?d @ fst ?j @ fst ?f"
    using assms(1)
    by (auto simp: run_engines_steps andthen_fst_snd split: option.splits)
  then show ?thesis
  proof cases
    case d
    with step_status [OF d(1) assms(2)] show ?thesis by auto
  next
    case j
    with step_status [OF j(1) assms(2)] show ?thesis by auto
  next
    case f
    with step_status [OF f(1) assms(2)] show ?thesis by auto
  qed
qed

lemma run_engines_events:
  assumes "ev \<in> set (fst (run_engines w et ncaps len))"
  shows "is_call ev \<or> to_stderr ev \<or>
    (\<exists>s. ev = Stdout s \<and> ((\<exists>e. s = banner e) \<or> result_text s \<or> s = footer w))"
proof -
  have "ev \<in> set (fst (step w et e ncaps len)) \<Longrightarrow> ?thesis" for e
    using block_events [of ev w e ncaps len] by (auto simp: step_def split: if_splits)
  with assms show ?thesis
    by (auto simp: run_engines_steps andthen_fst_snd split: option.splits)
qed

lemma emit_emit: "emit es (emit es' r) = emit (es @ es') r"
  by (simp add: emit_def)

lemma emit_Nil [simp]: "emit [] r = r"
  by (simp add: emit_def)

lemma setup_event_simps [simp]:
  "setup_event (Stderr s)" "setup_event (Perror s)"
  "setup_event (Call (Pcre_compile pattern options))" "setup_event (Call Pcre_fullinfo)"
  "setup_event (Call (Fopen path))" "setup_event (Call Fseek_end)" "setup_event (Call Ftell)"
  "setup_event (Call Fseek_set)" "setup_event (Call (Malloc n))" "setup_event (Call (Fread n))"
  "setup_event (Call Feof)" "setup_event (Call Fclose)"
  by (simp_all add: setup_event_def)

lemma load_and_run_shape:
  "(\<exists>tr. load_and_run w et ncaps path = (tr, Exit 1) \<and> tr \<noteq> [] \<and> to_stderr (last tr) \<and>
      (\<forall>ev \<in> set tr. setup_event ev)) \<or>
   (\<exists>pre. (\<forall>ev \<in> set pre. setup_event ev) \<and>
      load_and_run w et ncaps path =
        emit pre (returning (run_engines w et ncaps (ucast (ftell w))) (Exit 0)))"
proof -
  have ran: "A \<or> (\<exists>pre'. (\<forall>ev \<in> set pre'. setup_event ev) \<and> emit pre r = emit pre' r)"
    if "\<forall>ev \<in> set pre. setup_event ev" for A pre and r :: run
    using that by blast
  show ?thesis
    unfolding load_and_run_def Let_def
    by (simp add: emit_emit split: if_splits) (intro conjI impI ran; simp)
qed

lemma main_shape:
  "(\<exists>tr n. main w argv = (tr, Exit n) \<and> (n = 1 \<or> n = 2) \<and> tr \<noteq> [] \<and> to_stderr (last tr) \<and>
      (\<forall>ev \<in> set tr. setup_event ev)) \<or>
   (\<exists>pre flags et len. (\<forall>ev \<in> set pre. setup_event ev) \<and>
      scan_options (drop 1 argv) 0 0 = Scanned flags et (positionals_of argv) \<and>
      main w argv = emit pre (returning (run_engines w et (snd (pcre_fullinfo w)) len) (Exit 0)))"
proof (cases "length argv < 3")
  case True
  then show ?thesis by (simp add: main_usage_short)
next
  case long: False
  show ?thesis
  proof (cases "scan_options (drop 1 argv) 0 0")
    case (Unknown_option a)
    with long show ?thesis by (simp add: main_def)
  next
    case (Scanned flags et rest)
    from scan_options_Scanned [OF this] have rest: "rest = positionals_of argv"
      by (simp add: positionals_of_def)
    consider (a) "et = 0 \<or> length rest \<noteq> 2"
      | (b) "et \<noteq> 0" "length rest = 2" "pcre_compile w (rest ! 0) flags \<noteq> Compiled"
      | (c) "et \<noteq> 0" "length rest = 2" "pcre_compile w (rest ! 0) flags = Compiled"
          "fst (pcre_fullinfo w) <s 0"
      | (d) "et \<noteq> 0" "length rest = 2" "pcre_compile w (rest ! 0) flags = Compiled"
          "\<not> fst (pcre_fullinfo w) <s 0"
      by blast
    then show ?thesis
    proof cases
      case a
      with long Scanned show ?thesis by (auto simp: main_def usage_def)
    next
      case b
      with long Scanned show ?thesis
        by (cases "pcre_compile w (rest ! 0) flags") (auto simp: main_def)
    next
      case c
      with long Scanned show ?thesis by (auto simp: main_def)
    next
      case d
      let ?ncaps = "snd (pcre_fullinfo w)"
      have m: "main w argv = emit [Call (Pcre_compile (rest ! 0) flags), Call Pcre_fullinfo]
          (load_and_run w et ?ncaps (rest ! 1))"
        using long Scanned d by (simp add: main_def emit_emit)
      from load_and_run_shape [of w et ?ncaps "rest ! 1"] show ?thesis
      proof (elim disjE exE conjE)
        fix tr assume "load_and_run w et ?ncaps (rest ! 1) = (tr, Exit 1)" "tr \<noteq> []"
          "to_stderr (last tr)" "\<forall>ev \<in> set tr. setup_event ev"
        with m show ?thesis by simp
      next
        fix pre assume "\<forall>ev \<in> set pre. setup_event ev"
          "load_and_run w et ?ncaps (rest ! 1) =
             emit pre (returning (run_engines w et ?ncaps (ucast (ftell w))) (Exit 0))"
        with m Scanned rest have "(\<forall>ev \<in> set ([Call (Pcre_compile (rest ! 0) flags), Call Pcre_fullinfo] @ pre).
            setup_event ev) \<and>
          scan_options (drop 1 argv) 0 0 = Scanned flags et (positionals_of argv) \<and>
          main w argv = emit ([Call (Pcre_compile (rest ! 0) flags), Call Pcre_fullinfo] @ pre)
            (returning (run_engines w et ?ncaps (ucast (ftell w))) (Exit 0))"
          by (simp add: emit_emit)
        then show ?thesis by blast
      qed
    qed
  qed
qed

lemma marks_simps [simp]:
  "marks [] = []"
  "marks (ev # tr) = (case mark_of ev of None \<Rightarrow> marks tr | Some m \<Rightarrow> m # marks tr)"
  "marks (tr @ tr') = marks tr @ marks tr'"
  by (simp_all add: marks_def List.map_filter_def split: option.splits)

lemma quiet_prefix:
  assumes "\<forall>ev \<in> set pre. setup_event ev"
  shows "engines_started pre = []" "filter conversion_line pre = []" "Stdout s \<notin> set pre"
    "marks pre = []"
proof -
  have "started ev = None \<and> \<not> conversion_line ev \<and> ev \<noteq> Stdout s \<and> mark_of ev = None"
    if "setup_event ev" for ev
    using that by (cases ev) (auto simp: setup_event_def)
  with assms have
    "\<forall>ev \<in> set pre. started ev = None \<and> \<not> conversion_line ev \<and> ev \<noteq> Stdout s \<and> mark_of ev = None"
    by blast
  then show "engines_started pre = []" "filter conversion_line pre = []" "Stdout s \<notin> set pre"
    "marks pre = []"
    by (induction pre) auto
qed


lemma returning_simps [simp]:
  "fst (returning p st) = fst p"
  "snd (returning p st) = (case snd p of Some s \<Rightarrow> s | None \<Rightarrow> st)"
  by (simp_all add: returning_def)

subsection \<open>Order of the engines\<close>

lemma mark_of_texts [simp]:
  "mark_of (Stdout ''pcre default '') = Some (Named Default)"
  "mark_of (Stdout ''pcre JIT '') = Some (Named JIT)"
  "mark_of (Stdout ''pcre DFA '') = Some (Named DFA)"
  "mark_of (Stdout ''match'') = None" "mark_of (Stdout ''no match'') = None"
  "mark_of (Stdout (pair_text a b)) = None" "mark_of (Stdout (error_text rc)) = None"
  "mark_of (Stdout (elapsed_line elapsed)) = Some Timed" "mark_of (Stdout (footer w)) = None"
  by (simp_all add: pair_text_def error_text_def elapsed_line_def footer_def)

declare mark_of.simps(1) [simp del]

lemma print_pairs_marks [simp]: "marks (fst (print_pairs sz ov k n)) = []"
  by (induction k arbitrary: n) (auto split: option.splits)









subsection \<open>Return values of the match call\<close>

text \<open>
  C3.  Take an engine block that gets as far as its match call (the buffer was
  allocated, the study left no error, both clock readings are good) and whose match
  call returns 0.  In the blocks of the default and the JIT engine the process ends
  with status 2 after the message \<open>capture size too small\<close>, and no match is reported.
  In the block of the DFA engine the 0 counts as 1: the block prints \<open>match\<close>, exactly
  one pair of offsets, the first two integers of the buffer, and the elapsed time, and
  returns.
\<close>

theorem zero_return:
  assumes "malloc_ovector w e" "pcre_study w e = None" "clock_begin w e \<noteq> - 1"
    and "\<not> clock_end w e - clock_begin w e <s 0" "match_rc w e = 0"
  shows "(e \<noteq> DFA \<longrightarrow>
           snd (block w e ncaps len) = Some (Exit 2) \<and>
           last (fst (block w e ncaps len)) = Stderr ''capture size too small'' \<and>
           Stdout ''match'' \<notin> set (fst (block w e ncaps len))) \<and>
         (e = DFA \<longrightarrow>
           block w e ncaps len =
             ([Call (Malloc 8), Stdout ''pcre DFA '', Call (Pcre_study 0), Call Clock,
               Call (Pcre_dfa_exec (ucast len) 2 100), Call Clock, Stdout ''match'',
               Stdout (pair_text (ovector w DFA 0) (ovector w DFA 1)),
               Stdout (elapsed_line (clock_end w DFA - clock_begin w DFA))], None))"
  using assms
  by (cases e) (simp_all add: block_defs report_def PCRE_ERROR_NOMATCH_def word_sless_alt
      ovector_pair_def ovector_bytes_def)

theorem zero_return_witness:
  "block (calm\<lparr>match_rc := (\<lambda>e. 0)\<rparr>) Default 0 6 =
     ([Call (Malloc 12), Stdout ''pcre default '', Call (Pcre_study 0), Call Clock,
       Call (Pcre_exec 6 3), Call Clock, Stderr ''capture size too small''], Some (Exit 2)) \<and>
   block (calm\<lparr>match_rc := (\<lambda>e. 0)\<rparr>) DFA 0 6 =
     ([Call (Malloc 8), Stdout ''pcre DFA '', Call (Pcre_study 0), Call Clock,
       Call (Pcre_dfa_exec 6 2 100), Call Clock, Stdout ''match'',
       Stdout '' (0, 3)'', Stdout ('': 5 clock units elapsed.'' @ [CHR 0x0A])], None)"
proof -
  have "block (calm\<lparr>match_rc := (\<lambda>e. 0)\<rparr>) Default 0 6 =
     ([Call (Malloc 12), Stdout ''pcre default '', Call (Pcre_study 0), Call Clock,
       Call (Pcre_exec 6 3), Call Clock, Stderr ''capture size too small''], Some (Exit 2))"
    by (simp add: block_defs calm_def ovector_bytes_def word_sless_alt)
  with zero_return [of "calm\<lparr>match_rc := (\<lambda>e. 0)\<rparr>" DFA 0 6]
    zero_return [of "calm\<lparr>match_rc := (\<lambda>e. 0)\<rparr>" Default 0 6]
  show ?thesis
    by (simp add: calm_def word_sless_alt pair_text_def elapsed_line_def fmt_d_samples)
qed

subsection \<open>Sizes of the buffers\<close>

lemma scast_nonneg:
  fixes x :: c_int
  assumes "0 \<le> sint x"
  shows "uint (scast x :: c_size) = sint x"
proof -
  have "sint x < 2 ^ (LENGTH(32) - 1)" by (rule sint_lt)
  then have "sint x < 2 ^ 64" by (simp add: order_less_trans [where y = "2 ^ 31"])
  then have "take_bit LENGTH(64) (sint x) = sint x"
    using assms by (intro take_bit_int_eq_self) simp_all
  then show ?thesis
    by (simp only: scast_eq uint_word_of_int_eq)
qed

lemma ovecsize_sint:
  fixes ncaps :: c_int
  assumes "0 \<le> sint ncaps" "3 * (sint ncaps + 1) < 2 ^ 31"
  shows "sint ((ncaps + 1) * 3) = 3 * (sint ncaps + 1)"
proof -
  have "sint (ncaps + 1) = sint ncaps + 1"
    using assms by (simp add: sint_word_ariths signed_take_bit_int_eq_self)
  with assms show ?thesis
    by (simp add: sint_word_ariths signed_take_bit_int_eq_self)
qed

lemma ovecsize_arg:
  fixes x :: c_int
  shows "(ucast (scast x :: c_size) :: c_int) = x"
  by (rule bit_word_eqI) (auto simp: bit_simps)

lemma ovecsize_bytes:
  fixes ncaps :: c_int
  assumes "0 \<le> sint ncaps" "3 * (sint ncaps + 1) < 2 ^ 31"
  shows "uint (ovector_bytes (scast ((ncaps + 1) * 3))) = 4 * (3 * (sint ncaps + 1))"
proof -
  define k where "k = 3 * (sint ncaps + 1)"
  let ?x = "(ncaps + 1) * 3"
  have x: "sint ?x = k" unfolding k_def using assms by (rule ovecsize_sint)
  have k: "0 \<le> k" "k < 2 ^ 31" using assms by (simp_all add: k_def)
  with x have u: "uint (scast ?x :: c_size) = k"
    by (simp add: scast_nonneg)
  have "uint (scast ?x * 4 :: c_size) = uint (scast ?x :: c_size) * uint (4 :: c_size) mod 2 ^ LENGTH(64)"
    by (simp only: uint_word_ariths)
  also have "\<dots> = k * 4 mod 2 ^ 64" using u by simp
  also have "\<dots> = k * 4"
  proof (rule mod_pos_pos_trivial)
    show "0 \<le> k * 4" using k by simp
    have "k * 4 < 2 ^ 31 * 4" using k by simp
    also have "\<dots> < (2 ^ 64 :: int)" by simp
    finally show "k * 4 < 2 ^ 64" .
  qed
  finally show ?thesis by (simp add: ovector_bytes_def k_def)
qed

lemma report_no_sizing: "filter sizing (fst (report sz ov rc elapsed)) = []"
proof -
  have "\<not> sizing ev" if "ev \<in> set (fst (report sz ov rc elapsed))" for ev
    using report_events [OF that] by auto
  then show ?thesis by (simp add: filter_empty_conv)
qed

text \<open>
  C4.  Let the capture count be a non-negative \<open>int\<close> for which \<open>3 * (ncaps + 1)\<close> is
  an \<open>int\<close> too (PCRE reports at most 65535 groups).  The allocations and match calls
  of an engine block are then these: the blocks of the default and the JIT engine
  allocate \<open>4 * (3 * (ncaps + 1))\<close> bytes, which is \<open>3 * (ncaps + 1)\<close> integers, and pass
  \<open>3 * (ncaps + 1)\<close> as the size of the buffer to \<open>pcre_exec\<close>; the block of the DFA
  engine allocates 8 bytes, which is 2 integers, and passes the size 2 and the workspace
  count 100 to \<open>pcre_dfa_exec\<close>.  The match call is there when the block reaches it.
\<close>

theorem capture_buffer_sizes:
  assumes "0 \<le> sint ncaps" "3 * (sint ncaps + 1) < 2 ^ 31"
  shows "\<exists>bytes n.
    uint bytes = 4 * (3 * (sint ncaps + 1)) \<and> sint n = 3 * (sint ncaps + 1) \<and>
    (\<forall>e. filter sizing (fst (block w e ncaps len)) =
       (if e = DFA then
          Call (Malloc 8) # (if reached w e then [Call (Pcre_dfa_exec (ucast len) 2 100)] else [])
        else
          Call (Malloc bytes) # (if reached w e then [Call (Pcre_exec (ucast len) n)] else [])))"
proof (intro exI conjI allI)
  show "uint (ovector_bytes (scast ((ncaps + 1) * 3))) = 4 * (3 * (sint ncaps + 1))"
    using assms by (rule ovecsize_bytes)
  show "sint ((ncaps + 1) * 3) = 3 * (sint ncaps + 1)"
    using assms by (rule ovecsize_sint)
  fix e
  show "filter sizing (fst (block w e ncaps len)) =
       (if e = DFA then
          Call (Malloc 8) # (if reached w e then [Call (Pcre_dfa_exec (ucast len) 2 100)] else [])
        else
          Call (Malloc (ovector_bytes (scast ((ncaps + 1) * 3)))) #
            (if reached w e then [Call (Pcre_exec (ucast len) ((ncaps + 1) * 3))] else []))"
    by (cases e)
      (simp_all add: block_defs reached_def report_no_sizing ovecsize_arg ovector_bytes_def
        split: option.splits)
qed

theorem capture_buffer_sizes_witness:
  "\<exists>bytes n. uint bytes = 36 \<and> sint n = 9 \<and>
     filter sizing (fst (block calm JIT 2 6)) = [Call (Malloc bytes), Call (Pcre_exec 6 n)] \<and>
     filter sizing (fst (block calm DFA 2 6)) = [Call (Malloc 8), Call (Pcre_dfa_exec 6 2 100)]"
proof -
  have "reached calm JIT" "reached calm DFA" by (simp_all add: reached_def calm_def)
  with capture_buffer_sizes [of 2 calm 6] show ?thesis
    by (simp add: all_engine) blast
qed

subsection \<open>Runs that end early\<close>

text \<open>
  C1.  On \<open>sregex --default --jit abc f\<close>, with a file that the pattern does not match, so
  that \<open>pcre_exec\<close> returns \<open>PCRE_ERROR_NOMATCH\<close>, the block of the default engine prints
  \<open>no match\<close>, then takes the branch \<open>rc < 0\<close> of line 199 as well: it prints
  \<open>error: -1\<close> and ends the process with status 2.  No elapsed time is printed and the
  JIT engine does not run.
\<close>

theorem no_match_is_fatal:
  "main (calm\<lparr>match_rc := (\<lambda>e. PCRE_ERROR_NOMATCH)\<rparr>)
     [''sregex'', ''--default'', ''--jit'', ''abc'', ''f''] =
   ([Call (Pcre_compile ''abc'' 0), Call Pcre_fullinfo, Call (Fopen ''f''), Call Fseek_end,
     Call Ftell, Call Fseek_set, Call (Malloc 6), Call (Fread 6), Call Fclose,
     Call (Malloc 12), Stdout ''pcre default '', Call (Pcre_study 0), Call Clock,
     Call (Pcre_exec 6 3), Call Clock, Stdout ''no match'',
     Stdout (''error: -1'' @ [CHR 0x0A])], Exit 2)"
  by (simp add: run_defs calm_def fmt_d_samples)

text \<open>
  C2.  When \<open>fread\<close> gives 3 of the 6 bytes and the stream is not at its end, \<open>main\<close>
  calls \<open>perror("read file")\<close> and goes on: it closes the file, runs the selected
  engine on the buffer and ends with status 0.
\<close>

theorem short_read_continues:
  "main (calm\<lparr>fread := 3\<rparr>) [''sregex'', ''--jit'', ''abc'', ''f''] =
   ([Call (Pcre_compile ''abc'' 0), Call Pcre_fullinfo, Call (Fopen ''f''), Call Fseek_end,
     Call Ftell, Call Fseek_set, Call (Malloc 6), Call (Fread 6), Call Feof,
     Perror ''read file'', Call Fclose,
     Call (Malloc 12), Stdout ''pcre JIT '', Call (Pcre_study 1), Call Clock,
     Call (Pcre_exec 6 3), Call Clock, Stdout ''match'', Stdout '' (0, 3)'',
     Stdout ('': 5 clock units elapsed.'' @ [CHR 0x0A]),
     Stdout (''(1 clock unit is 0.000001 sec)'' @ [CHR 0x0A])], Exit 0)"
  by (simp add: run_defs calm_def fmt_d_samples)

lemma engine_error_block:
  assumes "reached w e" "\<not> clock_end w e - clock_begin w e <s 0"
    and "match_rc w e <s 0" "match_rc w e \<noteq> PCRE_ERROR_NOMATCH"
  shows "snd (block w e ncaps len) = Some (Exit 2)"
    and "last (fst (block w e ncaps len)) = Stdout (error_text (match_rc w e))"
    and "filter to_stderr (fst (block w e ncaps len)) = []"
proof -
  from assms(3) have "match_rc w e \<noteq> 0" by (auto simp: word_sless_alt)
  with assms show "snd (block w e ncaps len) = Some (Exit 2)"
    and "last (fst (block w e ncaps len)) = Stdout (error_text (match_rc w e))"
    and "filter to_stderr (fst (block w e ncaps len)) = []"
    by (cases e; simp add: block_defs reached_def report_def)+
qed

text \<open>
  C6, as amended.  A run that ends with a status other than 0 (and not by undefined
  behaviour) has written something, and the last thing written is its diagnostic: a
  write to standard error, or else, with status 2, the text \<open>error: \<close>, the negative
  return value of an engine's match call and a newline, written to standard output.
  Everything written to standard output is the name of an engine, a result text
  (\<open>match\<close>, \<open>no match\<close>, a pair of offsets, that error text, the elapsed time) or the
  conversion line.  And every engine block that reaches its match call and gets a
  negative return other than \<open>PCRE_ERROR_NOMATCH\<close> ends the process with status 2, writes
  that error text to standard output as its last event, and writes nothing to standard
  error.
\<close>

theorem diagnostics:
  assumes "main w argv = (tr, st)"
  shows "(st \<noteq> Exit 0 \<and> st \<noteq> Undefined \<longrightarrow>
           tr \<noteq> [] \<and>
           (to_stderr (last tr) \<or>
            st = Exit 2 \<and> (\<exists>e. match_rc w e <s 0 \<and> last tr = Stdout (error_text (match_rc w e))))) \<and>
         (\<forall>s. Stdout s \<in> set tr \<longrightarrow> (\<exists>e. s = banner e) \<or> result_text s \<or> s = footer w) \<and>
         (\<forall>e ncaps len.
            reached w e \<and> \<not> clock_end w e - clock_begin w e <s 0 \<and>
            match_rc w e <s 0 \<and> match_rc w e \<noteq> PCRE_ERROR_NOMATCH \<longrightarrow>
              snd (block w e ncaps len) = Some (Exit 2) \<and>
              last (fst (block w e ncaps len)) = Stdout (error_text (match_rc w e)) \<and>
              filter to_stderr (fst (block w e ncaps len)) = [])"
proof -
  let ?r = "\<lambda>et len. run_engines w et (snd (pcre_fullinfo w)) len"
  have c: "snd (block w e ncaps len) = Some (Exit 2) \<and>
      last (fst (block w e ncaps len)) = Stdout (error_text (match_rc w e)) \<and>
      filter to_stderr (fst (block w e ncaps len)) = []"
    if "reached w e \<and> \<not> clock_end w e - clock_begin w e <s 0 \<and>
        match_rc w e <s 0 \<and> match_rc w e \<noteq> PCRE_ERROR_NOMATCH" for e ncaps len
    using that engine_error_block [of w e ncaps len] by blast
  from main_shape [of w argv] consider
    (stopped) tr' n where "main w argv = (tr', Exit n)" "tr' \<noteq> []" "to_stderr (last tr')"
      "\<forall>ev \<in> set tr'. setup_event ev"
  | (ran) pre et len where "\<forall>ev \<in> set pre. setup_event ev"
      "main w argv = emit pre (returning (?r et len) (Exit 0))"
    by blast
  then have ab: "(st \<noteq> Exit 0 \<and> st \<noteq> Undefined \<longrightarrow>
           tr \<noteq> [] \<and>
           (to_stderr (last tr) \<or>
            st = Exit 2 \<and> (\<exists>e. match_rc w e <s 0 \<and> last tr = Stdout (error_text (match_rc w e))))) \<and>
         (\<forall>s. Stdout s \<in> set tr \<longrightarrow> (\<exists>e. s = banner e) \<or> result_text s \<or> s = footer w)"
  proof cases
    case stopped
    with assms quiet_prefix(3) [of tr] show ?thesis by auto
  next
    case (ran pre et len)
    with assms have tr: "tr = pre @ fst (?r et len)"
      and st: "st = (case snd (?r et len) of Some s \<Rightarrow> s | None \<Rightarrow> Exit 0)"
      by (simp_all add: prod_eq_iff)
    have a: "tr \<noteq> [] \<and>
           (to_stderr (last tr) \<or>
            st = Exit 2 \<and> (\<exists>e. match_rc w e <s 0 \<and> last tr = Stdout (error_text (match_rc w e))))"
      if "st \<noteq> Exit 0" "st \<noteq> Undefined"
    proof -
      from that st have "snd (?r et len) = Some st" by (cases "snd (?r et len)") auto
      from run_engines_status [OF this that(2)] tr show ?thesis by auto
    qed
    have b: "(\<exists>e. s = banner e) \<or> result_text s \<or> s = footer w" if "Stdout s \<in> set tr" for s
    proof -
      from that tr quiet_prefix(3) [OF ran(1)] have "Stdout s \<in> set (fst (?r et len))" by auto
      from run_engines_events [OF this] show ?thesis by auto
    qed
    from a b show ?thesis by blast
  qed
  from ab c show ?thesis by blast
qed

theorem diagnostics_witness:
  "main (calm\<lparr>clock_begin := (\<lambda>e. - 1)\<rparr>) [''sregex'', ''--jit'', ''abc'', ''f''] =
     ([Call (Pcre_compile ''abc'' 0), Call Pcre_fullinfo, Call (Fopen ''f''), Call Fseek_end,
       Call Ftell, Call Fseek_set, Call (Malloc 6), Call (Fread 6), Call Fclose,
       Call (Malloc 12), Stdout ''pcre JIT '', Call (Pcre_study 1), Call Clock,
       Perror ''clock''], Exit 2) \<and>
   to_stderr (Perror ''clock'') \<and>
   ((\<exists>e. ''pcre JIT '' = banner e) \<or> result_text ''pcre JIT '' \<or>
    ''pcre JIT '' = footer (calm\<lparr>clock_begin := (\<lambda>e. - 1)\<rparr>)) \<and>
   snd (block (calm\<lparr>match_rc := (\<lambda>e. - 6)\<rparr>) DFA 0 6) = Some (Exit 2) \<and>
   last (fst (block (calm\<lparr>match_rc := (\<lambda>e. - 6)\<rparr>) DFA 0 6)) = Stdout (error_text (- 6)) \<and>
   filter to_stderr (fst (block (calm\<lparr>match_rc := (\<lambda>e. - 6)\<rparr>) DFA 0 6)) = []"
proof -
  have m: "main (calm\<lparr>clock_begin := (\<lambda>e. - 1)\<rparr>) [''sregex'', ''--jit'', ''abc'', ''f''] =
     ([Call (Pcre_compile ''abc'' 0), Call Pcre_fullinfo, Call (Fopen ''f''), Call Fseek_end,
       Call Ftell, Call Fseek_set, Call (Malloc 6), Call (Fread 6), Call Fclose,
       Call (Malloc 12), Stdout ''pcre JIT '', Call (Pcre_study 1), Call Clock,
       Perror ''clock''], Exit 2)"
    by (simp add: run_defs calm_def)
  have r: "reached (calm\<lparr>match_rc := (\<lambda>e. - 6)\<rparr>) DFA \<and>
      \<not> clock_end (calm\<lparr>match_rc := (\<lambda>e. - 6)\<rparr>) DFA -
          clock_begin (calm\<lparr>match_rc := (\<lambda>e. - 6)\<rparr>) DFA <s 0 \<and>
      match_rc (calm\<lparr>match_rc := (\<lambda>e. - 6)\<rparr>) DFA <s 0 \<and>
      match_rc (calm\<lparr>match_rc := (\<lambda>e. - 6)\<rparr>) DFA \<noteq> PCRE_ERROR_NOMATCH"
    by (simp add: reached_def calm_def word_sless_alt PCRE_ERROR_NOMATCH_def)
  from diagnostics [OF m] have
    "(\<exists>e. ''pcre JIT '' = banner e) \<or> result_text ''pcre JIT '' \<or>
     ''pcre JIT '' = footer (calm\<lparr>clock_begin := (\<lambda>e. - 1)\<rparr>)"
    by simp
  moreover from diagnostics [where w = "calm\<lparr>match_rc := (\<lambda>e. - 6)\<rparr>" and argv = "[]",
      OF surjective_pairing] r
  have "snd (block (calm\<lparr>match_rc := (\<lambda>e. - 6)\<rparr>) DFA 0 6) = Some (Exit 2) \<and>
   last (fst (block (calm\<lparr>match_rc := (\<lambda>e. - 6)\<rparr>) DFA 0 6)) =
     Stdout (error_text (match_rc (calm\<lparr>match_rc := (\<lambda>e. - 6)\<rparr>) DFA)) \<and>
   filter to_stderr (fst (block (calm\<lparr>match_rc := (\<lambda>e. - 6)\<rparr>) DFA 0 6)) = []"
    by blast
  ultimately show ?thesis using m by simp
qed

text \<open>
  On \<open>sregex --default '(a+)+$' f\<close> with a match call that returns \<open>-8\<close>
  (\<open>PCRE_ERROR_MATCHLIMIT\<close>), the process ends with status 2, the code is the last thing
  written, it goes to standard output, and nothing at all is written to standard error.
\<close>

theorem engine_error_counterexample:
  "snd (main (calm\<lparr>pcre_fullinfo := (0, 1), match_rc := (\<lambda>e. - 8)\<rparr>)
         [''sregex'', ''--default'', ''(a+)+$'', ''f'']) = Exit 2 \<and>
   last (fst (main (calm\<lparr>pcre_fullinfo := (0, 1), match_rc := (\<lambda>e. - 8)\<rparr>)
         [''sregex'', ''--default'', ''(a+)+$'', ''f''])) = Stdout (''error: -8'' @ [CHR 0x0A]) \<and>
   filter to_stderr (fst (main (calm\<lparr>pcre_fullinfo := (0, 1), match_rc := (\<lambda>e. - 8)\<rparr>)
         [''sregex'', ''--default'', ''(a+)+$'', ''f''])) = []"
  by (simp add: run_defs calm_def fmt_d_samples)

end
